theory Spec2Isabelle
  imports Main
begin

section \<open>Python strings\<close>

text \<open>
  A Python \<open>str\<close> is modelled as a \<open>string\<close>, a list of characters whose code points
  lie below 256 (Latin-1). The classification of characters below follows the Unicode
  tables Python uses, restricted to that range.
\<close>

definition isspace :: "char \<Rightarrow> bool" where
  \<comment> \<open>\<open>str.isspace\<close> on one character: TAB..CR, FS..US, SPACE, NEL, NBSP.\<close>
  "isspace c = (let n = (of_char c :: nat) in
     (9 \<le> n \<and> n \<le> 13) \<or> (28 \<le> n \<and> n \<le> 32) \<or> n = 133 \<or> n = 160)"

definition lstrip :: "string \<Rightarrow> string" where
  "lstrip s = dropWhile isspace s"

definition rstrip :: "string \<Rightarrow> string" where
  "rstrip s = rev (dropWhile isspace (rev s))"

definition strip :: "string \<Rightarrow> string" where
  \<comment> \<open>\<open>str.strip()\<close> without argument\<close>
  "strip s = rstrip (lstrip s)"

definition lower_chr :: "char \<Rightarrow> char" where
  \<comment> \<open>\<open>A..Z\<close> and the accented capitals \<open>0xC0..0xDE\<close> (without the sign \<open>0xD7\<close>)
      have their lower-case form 32 code points further on\<close>
  "lower_chr c = (let n = (of_char c :: nat) in
     if (65 \<le> n \<and> n \<le> 90) \<or> (192 \<le> n \<and> n \<le> 222 \<and> n \<noteq> 215)
     then char_of (n + 32) else c)"

definition lower :: "string \<Rightarrow> string" where
  \<comment> \<open>\<open>str.lower()\<close>\<close>
  "lower s = map lower_chr s"

definition decimal_chr :: "char \<Rightarrow> bool" where
  \<comment> \<open>the characters \<open>0..9\<close>, the only ones below 256 that \<open>int()\<close> reads as digits\<close>
  "decimal_chr c = (let n = (of_char c :: nat) in 48 \<le> n \<and> n \<le> 57)"

definition digit_chr :: "char \<Rightarrow> bool" where
  \<comment> \<open>\<open>str.isdigit\<close> on one character: the decimal digits and the superscripts
      two, three (\<open>0xB2\<close>, \<open>0xB3\<close>) and one (\<open>0xB9\<close>)\<close>
  "digit_chr c = (let n = (of_char c :: nat) in
     (48 \<le> n \<and> n \<le> 57) \<or> n = 178 \<or> n = 179 \<or> n = 185)"

definition isdigit :: "string \<Rightarrow> bool" where
  \<comment> \<open>\<open>str.isdigit()\<close>: false on the empty string\<close>
  "isdigit s = (s \<noteq> [] \<and> list_all digit_chr s)"

definition decimal_value :: "string \<Rightarrow> int" where
  "decimal_value s = foldl (\<lambda>acc c. 10 * acc + (int (of_char c) - 48)) 0 s"

definition int_max_str_digits :: nat where
  \<comment> \<open>the interpreter's default limit on the number of digits of a string that
      \<open>int()\<close> converts (\<open>sys.int_info.default_max_str_digits\<close>)\<close>
  "int_max_str_digits = 4300"

definition py_int :: "string \<Rightarrow> int option" where
  \<comment> \<open>\<open>int(s)\<close> for a string on which \<open>isdigit\<close> holds; \<open>None\<close> for the
      \<open>ValueError\<close> that a superscript digit raises, and that a string of more
      digits than the limit raises\<close>
  "py_int s =
     (if s \<noteq> [] \<and> list_all decimal_chr s \<and> length s \<le> int_max_str_digits
      then Some (decimal_value s) else None)"

fun startswith :: "string \<Rightarrow> string \<Rightarrow> bool" where
  \<comment> \<open>\<open>s.startswith(p)\<close>, the string first\<close>
  "startswith s [] = True"
| "startswith [] (p # ps) = False"
| "startswith (c # cs) (p # ps) = (c = p \<and> startswith cs ps)"

fun str_in :: "string \<Rightarrow> string \<Rightarrow> bool" where
  \<comment> \<open>\<open>sub in s\<close>: \<open>sub\<close> occurs in \<open>s\<close> as a contiguous run\<close>
  "str_in sub [] = (sub = [])"
| "str_in sub (c # cs) = (startswith (c # cs) sub \<or> str_in sub cs)"

fun split_on :: "(char \<Rightarrow> bool) \<Rightarrow> string \<Rightarrow> string list" where
  \<comment> \<open>cut a string at every character that satisfies the predicate; the pieces
      between two cuts are kept when empty\<close>
  "split_on P [] = [Nil]"
| "split_on P (c # cs) =
     (if P c then [] # split_on P cs
      else (case split_on P cs of [] \<Rightarrow> [c # Nil] | t # ts \<Rightarrow> (c # t) # ts))"

definition split_sep :: "char \<Rightarrow> string \<Rightarrow> string list" where
  \<comment> \<open>\<open>s.split(sep)\<close> for a separator of one character\<close>
  "split_sep sep s = split_on (\<lambda>c. c = sep) s"

fun str_nat :: "nat \<Rightarrow> string" where
  "str_nat n = (if n < 10 then [char_of (48 + n)]
                else str_nat (n div 10) @ [char_of (48 + n mod 10)])"

definition str_int :: "int \<Rightarrow> string" where
  \<comment> \<open>\<open>str(n)\<close> of an integer\<close>
  "str_int n = (if n < 0 then CHR ''-'' # str_nat (nat (- n)) else str_nat (nat n))"


section \<open>Schedule matching (util)\<close>

record NowParts =
  year :: string
  month_name :: string
  week_of_month :: string
  weekday_name :: string
  day :: string
  hour :: string
  minute :: string

text \<open>
  A cell of a schedule row is typed \<open>Any\<close>. The cases \<open>_normalize_cell\<close> tells apart:
  \<open>None\<close> (also what \<open>row.get\<close> gives for a missing key), a float that is NaN, a float
  with an integral value, and every other value, given by its \<open>str()\<close>.
\<close>

datatype cell = Null | Float_nan | Float_whole int | Str string

fun normalize_cell :: "cell \<Rightarrow> string" where
  "normalize_cell Null = []"
| "normalize_cell Float_nan = []"
| "normalize_cell (Float_whole n) = str_int n"
| "normalize_cell (Str s) = strip s"

definition split_values :: "string \<Rightarrow> string list" where
  "split_values raw =
     (if raw = [] then []
      else
        let tokens = [raw];
            tokens = concat (map (split_sep CHR '';'') tokens);
            tokens = concat (map (split_sep CHR ''|'') tokens);
            tokens = concat (map (split_sep CHR '','') tokens)
        in map strip (filter (\<lambda>t. strip t \<noteq> []) tokens))"

definition token_matches :: "string \<Rightarrow> string \<Rightarrow> bool" where
  "token_matches token0 current0 =
     (let token = strip token0; current = strip current0 in
      if token = [] \<or> current = [] then False
      else if isdigit token \<and> isdigit current then
        (case (py_int token, py_int current) of
           (Some a, Some b) \<Rightarrow> a = b
         | _ \<Rightarrow> str_in current token)
      else str_in current token)"

definition matches :: "cell \<Rightarrow> string \<Rightarrow> bool" where
  "matches field_value now_value =
     (let raw = normalize_cell field_value in
      if raw = [] then False
      else if lower raw = ''todos'' then True
      else
        let candidatos = split_values raw in
        if candidatos \<noteq> [] then list_ex (\<lambda>token. token_matches token now_value) candidatos
        else token_matches raw now_value)"

text \<open>
  A schedule row is a dictionary (\<open>Mapping[str, Any]\<close>); \<open>row.get(key)\<close> is \<open>None\<close>
  for a key the row does not have.
\<close>

type_synonym schedule_row = "string \<rightharpoonup> cell"

definition row_get :: "schedule_row \<Rightarrow> string \<Rightarrow> cell" where
  "row_get row key = (case row key of None \<Rightarrow> Null | Some v \<Rightarrow> v)"

definition should_enqueue :: "schedule_row \<Rightarrow> NowParts \<Rightarrow> bool" where
  "should_enqueue row now =
     (matches (row_get row ''ano'') (year now)
      \<and> matches (row_get row ''meses_do_ano'') (month_name now)
      \<and> matches (row_get row ''semanas_do_mes'') (week_of_month now)
      \<and> matches (row_get row ''dias_da_semana'') (weekday_name now)
      \<and> matches (row_get row ''dia'') (day now)
      \<and> matches (row_get row ''hora'') (hour now)
      \<and> matches (row_get row ''minuto'') (minute now))"

text \<open>
  A queue item is a dictionary with the keys \<open>processo\<close>, \<open>ferramenta\<close> and \<open>caminho\<close>;
  a field is \<open>None\<close> when the dictionary lacks the key.
\<close>

record item =
  processo :: "string option"
  ferramenta :: "string option"
  caminho :: "string option"

definition to_process_item :: "schedule_row \<Rightarrow> item" where
  "to_process_item row =
     \<lparr> processo = Some (normalize_cell (row_get row ''Nome_Processo'')),
       ferramenta = Some (normalize_cell (row_get row ''Ferramenta'')),
       caminho = Some (normalize_cell (row_get row ''Caminho'')) \<rparr>"

definition get_or_empty :: "string option \<Rightarrow> string" where
  \<comment> \<open>\<open>item.get(key, '')\<close> and \<open>str(item.get(key) or "")\<close>\<close>
  "get_or_empty v = (case v of None \<Rightarrow> [] | Some s \<Rightarrow> s)"

definition get_str :: "string option \<Rightarrow> string" where
  \<comment> \<open>\<open>item.get(key)\<close> inside an f-string\<close>
  "get_str v = (case v of None \<Rightarrow> ''None'' | Some s \<Rightarrow> s)"


section \<open>Errors\<close>

datatype error =
    Empty
    \<comment> \<open>\<open>queue.Empty\<close>\<close>
  | Invalid_item
    \<comment> \<open>\<open>ValueError\<close>: the item has no tool or no path\<close>
  | Empty_command
    \<comment> \<open>\<open>ValueError\<close>: the path gives no token\<close>
  | Unexecutable_target string string
    \<comment> \<open>\<open>ValueError\<close>: the entry is a file that Windows does not execute; the entry
        and its extension\<close>
  | Db_error string
    \<comment> \<open>an exception of the SQLite layer, with its message\<close>

definition error_text :: "error \<Rightarrow> string" where
  \<comment> \<open>\<open>str(exc)\<close>\<close>
  "error_text e = (case e of
       Empty \<Rightarrow> []
     | Invalid_item \<Rightarrow> ''Item inv'' @ [CHR 0xE1] @ ''lido: ferramenta/caminho ausentes''
     | Empty_command \<Rightarrow> ''Item inv'' @ [CHR 0xE1] @ ''lido: comando vazio''
     | Unexecutable_target entry ext \<Rightarrow>
         ''Caminho aponta para arquivo n'' @ [CHR 0xE3] @ ''o-execut'' @ [CHR 0xE1]
         @ ''vel no Windows: '' @ [CHR 0x27] @ entry @ [CHR 0x27] @ '' (extens''
         @ [CHR 0xE3] @ ''o '' @ [CHR 0x27] @ ext @ [CHR 0x27] @ ''). ''
         @ ''Use .exe/.bat/.cmd/.ps1/.py ou um atalho .lnk para um execut''
         @ [CHR 0xE1] @ ''vel.''
     | Db_error msg \<Rightarrow> msg)"


section \<open>The queue and the duplicate guard (orchestrator)\<close>

type_synonym InMemoryQueue = "item list"

definition queue_put :: "item \<Rightarrow> InMemoryQueue \<Rightarrow> InMemoryQueue" where
  \<comment> \<open>\<open>InMemoryQueue.put\<close>\<close>
  "queue_put x dq = dq @ [x]"

definition queue_get :: "InMemoryQueue \<Rightarrow> error + item \<times> InMemoryQueue" where
  \<comment> \<open>\<open>InMemoryQueue.get\<close>: the first item and the rest, \<open>Empty\<close> on the empty queue\<close>
  "queue_get dq = (case dq of [] \<Rightarrow> Inl Empty | x # rest \<Rightarrow> Inr (x, rest))"

definition queue_empty :: "InMemoryQueue \<Rightarrow> bool" where
  \<comment> \<open>\<open>InMemoryQueue.empty\<close>\<close>
  "queue_empty dq = (dq = [])"

definition queue_len :: "InMemoryQueue \<Rightarrow> nat" where
  "queue_len dq = length dq"

definition snapshot :: "InMemoryQueue \<Rightarrow> item list" where
  "snapshot dq = dq"

record DuplicateGuard =
  last_minute_key :: "string option"
  seen :: "string set"

definition new_guard :: DuplicateGuard where
  "new_guard = \<lparr> last_minute_key = None, seen = {} \<rparr>"

definition minute_key :: "NowParts \<Rightarrow> string" where
  "minute_key now = year now @ month_name now @ day now @ hour now @ minute now"

definition reset_if_new_minute :: "NowParts \<Rightarrow> DuplicateGuard \<Rightarrow> DuplicateGuard" where
  "reset_if_new_minute now g =
     (if Some (minute_key now) \<noteq> last_minute_key g
      then g\<lparr> last_minute_key := Some (minute_key now), seen := {} \<rparr>
      else g)"

definition item_key :: "item \<Rightarrow> string" where
  "item_key it = get_or_empty (processo it) @ ''|'' @ get_or_empty (ferramenta it)
                 @ ''|'' @ get_or_empty (caminho it)"

definition allow :: "item \<Rightarrow> NowParts \<Rightarrow> DuplicateGuard \<Rightarrow> bool \<times> DuplicateGuard" where
  \<comment> \<open>\<open>DuplicateGuard.allow\<close>: the answer and the guard after the call\<close>
  "allow it now g =
     (let g1 = reset_if_new_minute now g; key = item_key it in
      if key \<in> seen g1 then (False, g1)
      else (True, g1\<lparr> seen := insert key (seen g1) \<rparr>))"


section \<open>The store (db)\<close>

record ProcessConfig =
  ident :: "int option"
  Nome_Processo :: string
  Ferramenta :: string
  Caminho :: string
  ano :: string
  meses_do_ano :: string
  semanas_do_mes :: string
  dias_da_semana :: string
  dia :: string
  hora :: string
  minuto :: string
  enabled :: bool

text \<open>
  The SQLite file is outside the program. The model keeps the table of processes as
  the list of its rows in the order the query's \<open>ORDER BY\<close> returns them, the log
  table as the list of appended (stream, message) pairs, and a list of pending faults:
  each operation on the store takes the next entry, and \<open>Some msg\<close> makes that operation
  raise with the message \<open>msg\<close>. Timestamps and row ids are left out.
\<close>

record OrchestratorDB =
  processes :: "ProcessConfig list"
  logs :: "(string \<times> string) list"
  faults :: "string option list"

definition next_fault :: "OrchestratorDB \<Rightarrow> string option \<times> OrchestratorDB" where
  "next_fault d = (case faults d of [] \<Rightarrow> (None, d) | f # fs \<Rightarrow> (f, d\<lparr> faults := fs \<rparr>))"

definition list_processes ::
  "bool \<Rightarrow> OrchestratorDB \<Rightarrow> (error + ProcessConfig list) \<times> OrchestratorDB" where
  "list_processes enabled_only d =
     (case next_fault d of
        (Some msg, d') \<Rightarrow> (Inl (Db_error msg), d')
      | (None, d') \<Rightarrow>
          (Inr (filter (\<lambda>p. if enabled_only then enabled p else True) (processes d')), d'))"

definition append_log ::
  "string \<Rightarrow> string \<Rightarrow> OrchestratorDB \<Rightarrow> (error + unit) \<times> OrchestratorDB" where
  \<comment> \<open>\<open>append_log(message=..., stream=...)\<close>\<close>
  "append_log message stream d =
     (case next_fault d of
        (Some msg, d') \<Rightarrow> (Inl (Db_error msg), d')
      | (None, d') \<Rightarrow> (Inr (), d'\<lparr> logs := logs d' @ [(stream, message)] \<rparr>))"

definition process_to_schedule_row :: "ProcessConfig \<Rightarrow> schedule_row" where
  "process_to_schedule_row proc =
     [ ''Nome_Processo'' \<mapsto> Str (Nome_Processo proc),
       ''Ferramenta'' \<mapsto> Str (Ferramenta proc),
       ''Caminho'' \<mapsto> Str (Caminho proc),
       ''ano'' \<mapsto> Str (ano proc),
       ''meses_do_ano'' \<mapsto> Str (meses_do_ano proc),
       ''semanas_do_mes'' \<mapsto> Str (semanas_do_mes proc),
       ''dias_da_semana'' \<mapsto> Str (dias_da_semana proc),
       ''dia'' \<mapsto> Str (dia proc),
       ''hora'' \<mapsto> Str (hora proc),
       ''minuto'' \<mapsto> Str (minuto proc) ]"


section \<open>The scheduler (orchestrator)\<close>

fun due_items :: "ProcessConfig list \<Rightarrow> NowParts \<Rightarrow> item list" where
  \<comment> \<open>the loop of \<open>poll_due_processes\<close>\<close>
  "due_items [] now = []"
| "due_items (proc # procs) now =
     (let row = process_to_schedule_row proc in
      if should_enqueue row now then to_process_item row # due_items procs now
      else due_items procs now)"

definition poll_due_processes ::
  "OrchestratorDB \<Rightarrow> NowParts \<Rightarrow> (error + item list) \<times> OrchestratorDB" where
  "poll_due_processes d now_parts =
     (case list_processes True d of
        (Inl e, d') \<Rightarrow> (Inl e, d')
      | (Inr procs, d') \<Rightarrow> (Inr (due_items procs now_parts), d'))"

text \<open>
  The scheduler and the controller share one store and one queue; the model keeps
  the single copy in the scheduler.
\<close>

record DBBackedScheduler =
  db :: OrchestratorDB
  out_queue :: InMemoryQueue
  poll_seconds :: nat
  log_to_db :: bool
  guard :: DuplicateGuard

definition enqueued_message :: "item \<Rightarrow> string" where
  "enqueued_message it =
     ''Enfileirado: '' @ get_str (processo it) @ '' ('' @ get_str (ferramenta it) @ '')''"

fun tick_items ::
  "NowParts \<Rightarrow> item list \<Rightarrow> DBBackedScheduler \<Rightarrow> error option \<times> DBBackedScheduler" where
  \<comment> \<open>the loop of \<open>tick_once\<close> over the due items; \<open>Some e\<close> is the exception that
      left the loop. The call of \<open>logging.info\<close> is left out.\<close>
  "tick_items now [] s = (None, s)"
| "tick_items now (it # rest) s =
     (case allow it now (guard s) of
        (False, g) \<Rightarrow> tick_items now rest (s\<lparr> guard := g \<rparr>)
      | (True, g) \<Rightarrow>
          if log_to_db s then
            (case append_log (enqueued_message it) ''log'' (db s) of
               (Inl e, d) \<Rightarrow> (Some e, s\<lparr> guard := g, db := d \<rparr>)
             | (Inr u, d) \<Rightarrow>
                 tick_items now rest
                   (s\<lparr> guard := g, db := d, out_queue := queue_put it (out_queue s) \<rparr>))
          else tick_items now rest (s\<lparr> guard := g, out_queue := queue_put it (out_queue s) \<rparr>))"

definition tick_once :: "NowParts \<Rightarrow> DBBackedScheduler \<Rightarrow> error option \<times> DBBackedScheduler" where
  \<comment> \<open>\<open>now_parts\<close> is what \<open>get_now_parts()\<close> reads from the clock\<close>
  "tick_once now_parts s =
     (case poll_due_processes (db s) now_parts of
        (Inl e, d) \<Rightarrow> (Some e, s\<lparr> db := d \<rparr>)
      | (Inr due, d) \<Rightarrow> tick_items now_parts due (s\<lparr> db := d \<rparr>))"

definition in_window :: "nat \<Rightarrow> bool" where
  \<comment> \<open>\<open>7 <= hour < 18\<close>\<close>
  "in_window h = (7 \<le> h \<and> h < 18)"

fun loop ::
  "(nat \<times> NowParts) list \<Rightarrow> DBBackedScheduler \<Rightarrow> (error option \<times> DBBackedScheduler) option" where
  \<comment> \<open>\<open>DBBackedScheduler.loop\<close> over the successive readings of the clock (the hour
      of the loop test, the parts read by the tick). \<open>None\<close>: the loop is still
      running when the readings end.\<close>
  "loop [] s = None"
| "loop ((h, now) # readings) s =
     (if in_window h then
        (case tick_once now s of
           (Some e, s') \<Rightarrow> Some (Some e, s')
         | (None, s') \<Rightarrow> loop readings s')
      else Some (None, s))"


section \<open>Building commands (executor)\<close>

text \<open>
  What the builder asks of its host: the file system (\<open>os.path.exists\<close>,
  \<open>os.path.isfile\<close>), the separators of \<open>os.path\<close> (backslash and slash on Windows),
  \<open>shlex.split(raw, posix=False)\<close> (\<open>None\<close> when it raises \<open>ValueError\<close>) and
  \<open>sys.executable\<close>.
\<close>

record host =
  path_exists :: "string \<Rightarrow> bool"
  path_isfile :: "string \<Rightarrow> bool"
  path_seps :: "char list"
  shlex_split :: "string \<Rightarrow> string list option"
  sys_executable :: string

definition build_uipath_command :: "string \<Rightarrow> string \<Rightarrow> string list" where
  "build_uipath_command robot_path process_name =
     [robot_path, ''execute'', ''--process-name'', process_name]"

fun join :: "string \<Rightarrow> string list \<Rightarrow> string" where
  \<comment> \<open>\<open>sep.join(xs)\<close>\<close>
  "join sep [] = []"
| "join sep [x] = x"
| "join sep (x # y # ys) = x @ sep @ join sep (y # ys)"

fun rebuild :: "(string \<Rightarrow> bool) \<Rightarrow> string list \<Rightarrow> nat \<Rightarrow> string list option" where
  \<comment> \<open>\<open>for i in range(len(tokens), 0, -1)\<close>: the longest prefix of the tokens that,
      joined by spaces, passes the test, followed by the other tokens\<close>
  "rebuild test tokens 0 = None"
| "rebuild test tokens (Suc i) =
     (let candidate = join '' '' (take (Suc i) tokens) in
      if test candidate then Some (candidate # drop (Suc i) tokens)
      else rebuild test tokens i)"

definition starts_with_quote :: "string \<Rightarrow> bool" where
  \<comment> \<open>\<open>raw.lstrip().startswith(("\"", "'"))\<close>\<close>
  "starts_with_quote raw =
     (case lstrip raw of [] \<Rightarrow> False | c # cs \<Rightarrow> c = CHR 0x22 \<or> c = CHR 0x27)"

definition split_command_windows :: "host \<Rightarrow> string \<Rightarrow> string list" where
  "split_command_windows h raw0 =
     (let raw = strip raw0 in
      if raw = [] then []
      else if path_exists h raw then [raw]
      else
        let tokens = (case shlex_split h raw of None \<Rightarrow> [raw] | Some ts \<Rightarrow> ts) in
        if length tokens > 1 \<and> \<not> starts_with_quote raw then
          (case rebuild (path_isfile h) tokens (length tokens) of
             Some found \<Rightarrow> found
           | None \<Rightarrow>
               (case rebuild (path_exists h) tokens (length tokens) of
                  Some found \<Rightarrow> found
                | None \<Rightarrow> tokens))
        else tokens)"

fun rfind_from :: "(char \<Rightarrow> bool) \<Rightarrow> string \<Rightarrow> int \<Rightarrow> int \<Rightarrow> int" where
  "rfind_from P [] i found = found"
| "rfind_from P (c # cs) i found = rfind_from P cs (i + 1) (if P c then i else found)"

definition rfind :: "(char \<Rightarrow> bool) \<Rightarrow> string \<Rightarrow> int" where
  \<comment> \<open>the last index of a character that satisfies the predicate, \<open>-1\<close> without one\<close>
  "rfind P p = rfind_from P p 0 (- 1)"

definition splitext :: "char list \<Rightarrow> string \<Rightarrow> string \<times> string" where
  \<comment> \<open>\<open>os.path.splitext\<close>: the extension starts at the last dot of the last path
      component, unless only dots precede it there\<close>
  "splitext seps p =
     (let sepIndex = rfind (\<lambda>c. c \<in> set seps) p;
          dotIndex = rfind (\<lambda>c. c = CHR ''.'') p
      in
        if dotIndex > sepIndex
           \<and> list_ex (\<lambda>c. c \<noteq> CHR ''.'')
                (take (nat (dotIndex - (sepIndex + 1))) (drop (nat (sepIndex + 1)) p))
        then (take (nat dotIndex) p, drop (nat dotIndex) p)
        else (p, []))"

definition ps_quote :: "string \<Rightarrow> string" where
  \<comment> \<open>\<open>_ps_quote\<close>: in single quotes, every single quote doubled\<close>
  "ps_quote v = [CHR 0x27] @ concat (map (\<lambda>c. if c = CHR 0x27 then [c, c] else [c]) v)
                @ [CHR 0x27]"

definition build_subprocess_command :: "host \<Rightarrow> item \<Rightarrow> error + string list" where
  "build_subprocess_command h it =
     (let tool = strip (get_or_empty (ferramenta it));
          path = strip (get_or_empty (caminho it));
          process_name = strip (get_or_empty (processo it))
      in
        if tool = [] \<or> path = [] then Inl Invalid_item
        else if lower tool = ''uipath'' then Inr (build_uipath_command path process_name)
        else
          (case split_command_windows h path of
             [] \<Rightarrow> Inl Empty_command
           | entry # args \<Rightarrow>
               let tokens = entry # args;
                   ext = lower (snd (splitext (path_seps h) entry))
               in
                 if ext = ''.py'' \<or> ext = ''.pyw'' then Inr (sys_executable h # tokens)
                 else if ext = ''.bat'' \<or> ext = ''.cmd'' then Inr (''cmd.exe'' # ''/c'' # tokens)
                 else if ext = ''.ps1'' then
                   Inr ([''powershell'', ''-NoProfile'', ''-ExecutionPolicy'', ''Bypass'',
                         ''-File'', entry] @ args)
                 else if ext = ''.lnk'' then
                   (let arg_list =
                          (if args \<noteq> [] then ''@('' @ join '','' (map ps_quote args) @ '')''
                           else ''@()'')
                    in Inr [''powershell'', ''-NoProfile'', ''-ExecutionPolicy'', ''Bypass'',
                            ''-Command'',
                            ''Start-Process -FilePath '' @ ps_quote entry
                            @ '' -ArgumentList '' @ arg_list @ '' -Wait''])
                 else if path_exists h entry \<and> path_isfile h entry
                         \<and> ext \<noteq> ''.exe'' \<and> ext \<noteq> ''.com''
                 then Inl (Unexecutable_target entry ext)
                 else Inr tokens))"


section \<open>The controller (gui\_controller)\<close>

datatype process_state = NotRunning | Starting | Running

datatype signal =
    Console_text string
  | Log_text string
  | Status_text string
  | Queue_changed "item list"
  | Running_item_changed "item option"

text \<open>
  The part of the controller the scheduler tick touches: the scheduler (with the
  store and the queue), the item in execution, the state of the \<open>QProcess\<close> with
  the program and arguments set on it, and the signals emitted so far.
\<close>

record OrchestratorController =
  scheduler :: DBBackedScheduler
  running_scheduler :: bool
  running_item :: "item option"
  process :: process_state
  program :: "string \<times> string list"
  emitted :: "signal list"

definition emit :: "signal \<Rightarrow> OrchestratorController \<Rightarrow> OrchestratorController" where
  "emit sg c = c\<lparr> emitted := emitted c @ [sg] \<rparr>"

definition controller_append_log ::
  "string \<Rightarrow> string \<Rightarrow> OrchestratorController \<Rightarrow> OrchestratorController" where
  \<comment> \<open>\<open>OrchestratorController._append_log\<close>: a failure of the store is swallowed\<close>
  "controller_append_log message stream c =
     (let d = snd (append_log message stream (db (scheduler c)))
      in emit (Log_text message) (c\<lparr> scheduler := (scheduler c)\<lparr> db := d \<rparr> \<rparr>))"

definition emit_queue_changed :: "OrchestratorController \<Rightarrow> OrchestratorController" where
  "emit_queue_changed c = emit (Queue_changed (snapshot (out_queue (scheduler c)))) c"

definition start_item ::
  "host \<Rightarrow> item \<Rightarrow> OrchestratorController \<Rightarrow> error option \<times> OrchestratorController" where
  \<comment> \<open>\<open>_start_item\<close>: an exception of the builder leaves the method\<close>
  "start_item h it c =
     (case build_subprocess_command h it of
        Inl e \<Rightarrow> (Some e, c)
      | Inr [] \<Rightarrow>
          (None, (controller_append_log (''Comando vazio (n'' @ [CHR 0xE3] @ ''o executado)'')
                    ''log'' c)\<lparr> running_item := None \<rparr>)
      | Inr (prog # args) \<Rightarrow>
          (let c1 = emit (Console_text ([CHR 0x0A] @ ''$ '' @ prog @ '' '' @ join '' '' args
                                        @ [CHR 0x0A])) c;
               c2 = controller_append_log
                      (''Executando: '' @ get_str (processo it) @ '' (''
                       @ get_str (ferramenta it) @ '')'') ''log'' c1;
               c3 = c2\<lparr> program := (prog, args), process := Starting \<rparr>
           in (None, emit (Status_text (''Executando: '' @ get_str (processo it))) c3)))"

definition drain_queue_if_idle ::
  "host \<Rightarrow> OrchestratorController \<Rightarrow> error option \<times> OrchestratorController" where
  "drain_queue_if_idle h c =
     (if process c \<noteq> NotRunning then (None, c)
      else if queue_empty (out_queue (scheduler c))
      then (None, emit (Status_text ''Fila vazia'') (emit_queue_changed c))
      else
        (case queue_get (out_queue (scheduler c)) of
           Inl e \<Rightarrow> (None, c)
         | Inr (it, rest) \<Rightarrow>
             (let c1 = emit_queue_changed (c\<lparr> scheduler := (scheduler c)\<lparr> out_queue := rest \<rparr> \<rparr>);
                  c2 = emit (Running_item_changed (Some it)) (c1\<lparr> running_item := Some it \<rparr>)
              in start_item h it c2)))"

definition on_scheduler_tick ::
  "host \<Rightarrow> nat \<Rightarrow> NowParts \<Rightarrow> OrchestratorController
     \<Rightarrow> error option \<times> OrchestratorController" where
  \<comment> \<open>\<open>_on_scheduler_tick\<close>; \<open>hr\<close> is the local hour the method reads, \<open>now_parts\<close> what
      the tick of the scheduler reads\<close>
  "on_scheduler_tick h hr now_parts c =
     (if \<not> in_window hr
      then (None, emit (Status_text (''Fora do hor'' @ [CHR 0xE1]
                                      @ ''rio (07-18): scheduler em espera'')) c)
      else
        let c1 = (case tick_once now_parts (scheduler c) of
                    (None, s) \<Rightarrow> c\<lparr> scheduler := s \<rparr>
                  | (Some exc, s) \<Rightarrow>
                      controller_append_log (''Erro no scheduler: '' @ error_text exc) ''log''
                        (c\<lparr> scheduler := s \<rparr>));
            c2 = emit_queue_changed c1
        in drain_queue_if_idle h c2)"


section \<open>Notions of the specification\<close>

definition is_delimiter :: "char \<Rightarrow> bool" where
  "is_delimiter c = (c = CHR '','' \<or> c = CHR '';'' \<or> c = CHR ''|'')"

definition delimiter_tokens :: "string \<Rightarrow> string list" where
  \<comment> \<open>the specification's splitting: one cut at every comma, semicolon and pipe\<close>
  "delimiter_tokens raw = split_on is_delimiter raw"

definition wildcard_field :: "schedule_row \<Rightarrow> string \<Rightarrow> bool" where
  \<comment> \<open>the field of the row is a string equal to \<open>Todos\<close> up to case\<close>
  "wildcard_field row key = (case row key of Some (Str v) \<Rightarrow> lower v = ''todos'' | _ \<Rightarrow> False)"

definition plain_chr :: "char \<Rightarrow> bool" where
  \<comment> \<open>neither a delimiter nor blank\<close>
  "plain_chr c = (\<not> is_delimiter c \<and> \<not> isspace c)"

definition rendered_value :: "string \<Rightarrow> bool" where
  \<comment> \<open>a snapshot value as the clock renders it (digits, or the name of a month or
      of a day): it holds a character that is neither a delimiter nor blank\<close>
  "rendered_value v = list_ex plain_chr v"

definition pure_decimal :: "string \<Rightarrow> bool" where
  \<comment> \<open>a purely numeric string: not empty, only the digits \<open>0..9\<close>\<close>
  "pure_decimal t = (t \<noteq> [] \<and> list_all decimal_chr t)"

datatype queue_op = Push item | Pop

fun run_ops :: "queue_op list \<Rightarrow> InMemoryQueue \<Rightarrow> (error + item) list \<times> InMemoryQueue" where
  \<comment> \<open>a sequence of \<open>put\<close> and \<open>get\<close> calls: the outcome of every \<open>get\<close>, in order, and
      the queue at the end\<close>
  "run_ops [] dq = ([], dq)"
| "run_ops (Push x # ops) dq = run_ops ops (queue_put x dq)"
| "run_ops (Pop # ops) dq =
     (case queue_get dq of
        Inl e \<Rightarrow> (Inl e # fst (run_ops ops dq), snd (run_ops ops dq))
      | Inr (x, rest) \<Rightarrow> (Inr x # fst (run_ops ops rest), snd (run_ops ops rest)))"

fun pushed :: "queue_op list \<Rightarrow> item list" where
  "pushed [] = []"
| "pushed (Push x # ops) = x # pushed ops"
| "pushed (Pop # ops) = pushed ops"

fun popped :: "(error + item) list \<Rightarrow> item list" where
  "popped [] = []"
| "popped (Inr x # rs) = x # popped rs"
| "popped (Inl e # rs) = popped rs"

fun guard_after :: "(item \<times> NowParts) list \<Rightarrow> DuplicateGuard \<Rightarrow> DuplicateGuard" where
  \<comment> \<open>the guard after a sequence of \<open>allow\<close> calls\<close>
  "guard_after [] g = g"
| "guard_after ((it, now) # calls) g = guard_after calls (snd (allow it now g))"


section \<open>Example data\<close>

definition friday_0730 :: NowParts where
  "friday_0730 = \<lparr> year = ''2025'', month_name = ''December'', week_of_month = ''4'',
                    weekday_name = ''Friday'', day = ''26'', hour = ''07'', minute = ''30'' \<rparr>"

definition friday_0731 :: NowParts where
  "friday_0731 = friday_0730\<lparr> minute := ''31'' \<rparr>"

definition all_todos :: schedule_row where
  "all_todos = [ ''ano'' \<mapsto> Str ''Todos'', ''meses_do_ano'' \<mapsto> Str ''TODOS'',
                 ''semanas_do_mes'' \<mapsto> Str ''todos'', ''dias_da_semana'' \<mapsto> Str ''Todos'',
                 ''dia'' \<mapsto> Str ''Todos'', ''hora'' \<mapsto> Str ''toDos'',
                 ''minuto'' \<mapsto> Str ''Todos'' ]"

definition job :: "string \<Rightarrow> string \<Rightarrow> string \<Rightarrow> item" where
  "job name tool path = \<lparr> processo = Some name, ferramenta = Some tool, caminho = Some path \<rparr>"

definition always :: "string \<Rightarrow> ProcessConfig" where
  \<comment> \<open>an enabled process due at every minute\<close>
  "always name =
     \<lparr> ident = None, Nome_Processo = name, Ferramenta = ''Python'', Caminho = ''run.exe'',
       ano = ''Todos'', meses_do_ano = ''Todos'', semanas_do_mes = ''Todos'',
       dias_da_semana = ''Todos'', dia = ''Todos'', hora = ''Todos'', minuto = ''Todos'',
       enabled = True \<rparr>"

definition store :: "string option list \<Rightarrow> OrchestratorDB" where
  \<comment> \<open>a store with the two processes \<open>A\<close> and \<open>B\<close> and the given faults\<close>
  "store fs = \<lparr> processes = [always ''A'', always ''B''], logs = [], faults = fs \<rparr>"

definition fresh_scheduler :: "OrchestratorDB \<Rightarrow> DBBackedScheduler" where
  \<comment> \<open>the scheduler as the controller creates it\<close>
  "fresh_scheduler d =
     \<lparr> db = d, out_queue = [], poll_seconds = 60, log_to_db = True, guard = new_guard \<rparr>"

definition fresh_controller :: "OrchestratorDB \<Rightarrow> OrchestratorController" where
  "fresh_controller d =
     \<lparr> scheduler = fresh_scheduler d, running_scheduler = True, running_item = None,
       process = NotRunning, program = ([], []), emitted = [] \<rparr>"

definition busy_controller :: "OrchestratorDB \<Rightarrow> OrchestratorController" where
  \<comment> \<open>a controller whose process is executing an earlier item\<close>
  "busy_controller d =
     (fresh_controller d)\<lparr> running_item := Some (job ''Z'' ''Python'' ''z.exe''),
                            process := Running \<rparr>"

definition readme_path :: string where
  "readme_path = ''C:'' @ [CHR 0x5C] @ ''dir'' @ [CHR 0x5C] @ ''readme.txt''"

definition windows_host :: host where
  \<comment> \<open>a Windows host whose only file is \<open>readme_path\<close>; its \<open>shlex.split\<close> is given
      on strings without blanks and quotes only, where the string is the one token\<close>
  "windows_host =
     \<lparr> path_exists = (\<lambda>p. p = readme_path), path_isfile = (\<lambda>p. p = readme_path),
       path_seps = [CHR 0x5C, CHR ''/''], shlex_split = (\<lambda>raw. Some [raw]),
       sys_executable = ''python.exe'' \<rparr>"

section \<open>Strings: splitting and stripping\<close>

lemma split_on_not_Nil: "split_on P s \<noteq> []"
  by (induction s) (auto split: list.splits)

lemma concat_map_split_on:
  "concat (map (split_on Q) (split_on P s)) = split_on (\<lambda>c. P c \<or> Q c) s"
proof (induction s)
  case Nil
  show ?case by simp
next
  case (Cons c cs)
  obtain t ts where pt: "split_on P cs = t # ts"
    using split_on_not_Nil [of P cs] by (cases "split_on P cs") auto
  obtain u us where qt: "split_on Q t = u # us"
    using split_on_not_Nil [of Q t] by (cases "split_on Q t") auto
  have ih: "split_on (\<lambda>c. P c \<or> Q c) cs = (u # us) @ concat (map (split_on Q) ts)"
    using Cons.IH pt qt by simp
  show ?case
  proof (cases "P c")
    case True
    then show ?thesis using Cons.IH by simp
  next
    case False
    then show ?thesis using pt qt ih by (cases "Q c") simp_all
  qed
qed

lemma split_on_none: "\<forall>c \<in> set s. \<not> P c \<Longrightarrow> split_on P s = [s]"
  by (induction s) auto

lemma split_values_tokens:
  "split_values raw = map strip (filter (\<lambda>t. strip t \<noteq> []) (delimiter_tokens raw))"
proof (cases "raw = []")
  case True
  then show ?thesis
    by (simp add: split_values_def delimiter_tokens_def strip_def lstrip_def rstrip_def)
next
  case False
  have "(\<lambda>c. ((c = CHR '';'') \<or> c = CHR ''|'') \<or> c = CHR '','') = is_delimiter"
    by (auto simp: is_delimiter_def fun_eq_iff)
  moreover have "\<And>sep. split_sep sep = split_on (\<lambda>c. c = sep)"
    by (simp add: fun_eq_iff split_sep_def)
  ultimately show ?thesis using False
    by (simp add: split_values_def delimiter_tokens_def concat_map_split_on)
qed

lemma lstrip_hd: "lstrip s \<noteq> [] \<Longrightarrow> \<not> isspace (hd (lstrip s))"
  unfolding lstrip_def by (rule hd_dropWhile)

lemma rstrip_decomp: "s = rstrip s @ rev (takeWhile isspace (rev s))"
proof -
  have "rstrip s @ rev (takeWhile isspace (rev s))
      = rev (takeWhile isspace (rev s) @ dropWhile isspace (rev s))"
    unfolding rstrip_def by (rule rev_append [symmetric])
  then show ?thesis by simp
qed

lemma rstrip_last: "rstrip s \<noteq> [] \<Longrightarrow> \<not> isspace (last (rstrip s))"
  unfolding rstrip_def using hd_dropWhile [of isspace "rev s"] by (simp add: last_rev)

lemma rstrip_hd: "rstrip s \<noteq> [] \<Longrightarrow> hd (rstrip s) = hd s"
  using rstrip_decomp [of s] by (metis hd_append2)

lemma strip_id:
  assumes "s \<noteq> []" and "\<not> isspace (hd s)" and "\<not> isspace (last s)"
  shows "strip s = s"
proof -
  have l: "lstrip s = s" using assms by (cases s) (simp_all add: lstrip_def)
  have "dropWhile isspace (rev s) = rev s"
    using assms by (cases "rev s") (simp_all add: hd_rev)
  then show ?thesis using l by (simp add: strip_def rstrip_def)
qed

lemma strip_ends:
  assumes "strip s \<noteq> []"
  shows "\<not> isspace (hd (strip s))" and "\<not> isspace (last (strip s))"
proof -
  have ne: "lstrip s \<noteq> []" using assms by (auto simp: strip_def rstrip_def)
  show "\<not> isspace (hd (strip s))"
    using assms rstrip_hd [of "lstrip s"] lstrip_hd [OF ne] by (simp add: strip_def)
  show "\<not> isspace (last (strip s))"
    using assms rstrip_last [of "lstrip s"] by (simp add: strip_def)
qed

lemma strip_Nil: "strip [] = []"
  by (simp add: strip_def lstrip_def rstrip_def)

lemma strip_strip: "strip (strip s) = strip s"
proof (cases "strip s = []")
  case True
  with strip_Nil show ?thesis by simp
next
  case False
  then show ?thesis using strip_ends [OF False] by (intro strip_id)
qed


section \<open>The matcher\<close>

lemma token_matches_strip: "token_matches (strip t) c = token_matches t c"
  by (simp add: token_matches_def strip_strip)

lemma token_matches_nonblank: "token_matches t c \<Longrightarrow> strip t \<noteq> []"
  by (auto simp: token_matches_def Let_def split: if_splits)

lemma candidates_match:
  "list_ex (\<lambda>t. token_matches t now) (split_values raw)
     = (\<exists>t \<in> set (delimiter_tokens raw). token_matches t now)"
  using token_matches_nonblank
  by (auto simp: split_values_tokens list_ex_iff token_matches_strip)

lemma candidates_empty:
  "split_values raw = [] \<longleftrightarrow> (\<forall>t \<in> set (delimiter_tokens raw). strip t = [])"
  by (auto simp: split_values_tokens filter_empty_conv)

lemma matches_tokens:
  assumes "lower (normalize_cell f) \<noteq> ''todos''"
  shows "matches f now =
     ((\<exists>t \<in> set (delimiter_tokens (normalize_cell f)). token_matches t now)
      \<or> ((\<forall>t \<in> set (delimiter_tokens (normalize_cell f)). strip t = [])
          \<and> token_matches (normalize_cell f) now))"
proof (cases "normalize_cell f = []")
  case True
  then show ?thesis
    by (simp add: matches_def delimiter_tokens_def token_matches_def strip_Nil)
next
  case False
  then show ?thesis
    using assms candidates_match [of now "normalize_cell f"]
    by (cases "split_values (normalize_cell f) = []")
       (simp_all add: matches_def candidates_empty [symmetric])
qed

lemma lower_chr_space: "isspace c \<Longrightarrow> lower_chr c = c"
  by (auto simp: isspace_def lower_chr_def Let_def)

lemma lower_chr_digit: "digit_chr c \<Longrightarrow> lower_chr c = c"
  by (auto simp: digit_chr_def lower_chr_def Let_def)

lemma letters_plain:
  "\<not> isspace CHR ''t''" "\<not> isspace CHR ''s''" "\<not> digit_chr CHR ''t''"
  "\<not> isspace CHR ''u''" "\<not> isspace CHR ''h''"
  by (simp_all add: isspace_def digit_chr_def)

lemma lower_todos:
  assumes "lower w = ''todos''"
  shows "strip w = w" and "w \<noteq> []" and "\<not> isdigit w"
proof -
  from assms obtain a b c d e where w: "w = [a, b, c, d, e]"
    and a: "lower_chr a = CHR ''t''" and e: "lower_chr e = CHR ''s''"
    by (auto simp: lower_def map_eq_Cons_conv)
  have sa: "\<not> isspace a" using a lower_chr_space [of a] letters_plain by auto
  have se: "\<not> isspace e" using e lower_chr_space [of e] letters_plain by auto
  have da: "\<not> digit_chr a" using a lower_chr_digit [of a] letters_plain by auto
  show "strip w = w" using sa se w by (intro strip_id) simp_all
  show "w \<noteq> []" using w by simp
  show "\<not> isdigit w" using da w by (simp add: isdigit_def)
qed

lemma token_matches_wildcard:
  assumes "lower w = ''todos''"
  shows "token_matches w now = (strip now \<noteq> [] \<and> str_in (strip now) w)"
  using lower_todos [OF assms] by (auto simp: token_matches_def Let_def)

lemma matches_wildcard: "lower s = ''todos'' \<Longrightarrow> matches (Str s) now"
  using lower_todos [of s] by (simp add: matches_def)

lemma wildcard_field_matches: "wildcard_field row key \<Longrightarrow> matches (row_get row key) now"
  by (auto simp: wildcard_field_def row_get_def matches_wildcard
           split: option.splits cell.splits)

lemma decimal_chr_plain:
  "decimal_chr c \<Longrightarrow> digit_chr c \<and> \<not> isspace c \<and> \<not> is_delimiter c \<and> lower_chr c = c"
  by (auto simp: decimal_chr_def digit_chr_def isspace_def is_delimiter_def
                 lower_chr_def Let_def)

lemma decimal_strip:
  assumes "pure_decimal t"
  shows "strip t = t"
proof (rule strip_id)
  show ne: "t \<noteq> []" using assms by (simp add: pure_decimal_def)
  have "hd t \<in> set t" "last t \<in> set t" using ne by simp_all
  then show "\<not> isspace (hd t)" "\<not> isspace (last t)"
    using assms decimal_chr_plain by (auto simp: pure_decimal_def list_all_iff)
qed

lemma decimal_isdigit: "pure_decimal t \<Longrightarrow> isdigit t"
  using decimal_chr_plain by (auto simp: pure_decimal_def isdigit_def list_all_iff)

lemma token_matches_decimal:
  assumes "pure_decimal t" and "pure_decimal c"
    and "length t \<le> int_max_str_digits" and "length c \<le> int_max_str_digits"
  shows "token_matches t c = (decimal_value t = decimal_value c)"
proof -
  have "py_int t = Some (decimal_value t)" "py_int c = Some (decimal_value c)"
    using assms by (simp_all add: py_int_def pure_decimal_def)
  moreover have "t \<noteq> []" "c \<noteq> []" using assms by (simp_all add: pure_decimal_def)
  ultimately show ?thesis
    using assms(1,2) decimal_strip decimal_isdigit by (simp add: token_matches_def)
qed

lemma token_matches_long:
  assumes "pure_decimal t" and "pure_decimal c"
    and "int_max_str_digits < length t \<or> int_max_str_digits < length c"
  shows "token_matches t c = str_in c t"
proof -
  have "py_int t = None \<or> py_int c = None"
    using assms(3) by (auto simp: py_int_def)
  then have "(case (py_int t, py_int c) of (Some a, Some b) \<Rightarrow> a = b | _ \<Rightarrow> str_in c t)
               = str_in c t"
    by (auto split: option.splits)
  moreover have "t \<noteq> []" "c \<noteq> []" using assms by (simp_all add: pure_decimal_def)
  ultimately show ?thesis
    using assms(1,2) decimal_strip decimal_isdigit by (simp add: token_matches_def)
qed

lemma startswith_set: "startswith s p \<Longrightarrow> set p \<subseteq> set s"
  by (induction s p rule: startswith.induct) auto

lemma startswith_length: "startswith s p \<Longrightarrow> length p \<le> length s"
  by (induction s p rule: startswith.induct) auto

lemma str_in_set: "str_in sub s \<Longrightarrow> set sub \<subseteq> set s"
proof (induction s)
  case Nil
  then show ?case by simp
next
  case (Cons a s)
  then show ?case using startswith_set [of "a # s" sub] by auto
qed

lemma str_in_length: "str_in sub s \<Longrightarrow> length sub \<le> length s"
proof (induction s)
  case Nil
  then show ?case by simp
next
  case (Cons a s)
  then show ?case using startswith_length [of "a # s" sub] by auto
qed

lemma str_in_append: "str_in sub ys \<Longrightarrow> str_in sub (xs @ ys)"
  by (induction xs) auto

lemma strip_subset: "set (strip s) \<subseteq> set s"
proof -
  have "set (strip s) \<subseteq> set (lstrip s)"
    using set_dropWhileD [of _ isspace "rev (lstrip s)"] by (auto simp: strip_def rstrip_def)
  moreover have "set (lstrip s) \<subseteq> set s"
    using set_dropWhileD [of _ isspace s] by (auto simp: lstrip_def)
  ultimately show ?thesis by blast
qed

lemma strip_keeps:
  assumes "c \<in> set s" and "\<not> isspace c"
  shows "c \<in> set (strip s)"
proof -
  have "s = takeWhile isspace s @ lstrip s" by (simp add: lstrip_def)
  then have "c \<in> set (takeWhile isspace s) \<or> c \<in> set (lstrip s)"
    using assms(1) by (metis Un_iff set_append)
  then have l: "c \<in> set (lstrip s)" using assms(2) by (auto dest: set_takeWhileD)
  have "c \<in> set (rstrip (lstrip s)) \<or> c \<in> set (rev (takeWhile isspace (rev (lstrip s))))"
    using l rstrip_decomp [of "lstrip s"] by (metis Un_iff set_append)
  then show ?thesis using assms(2) by (auto simp: strip_def dest: set_takeWhileD)
qed

lemma blank_spaces: "strip t = [] \<Longrightarrow> c \<in> set t \<Longrightarrow> isspace c"
  using strip_keeps [of c t] by auto

lemma split_on_chars: "c \<in> set s \<Longrightarrow> P c \<or> (\<exists>t \<in> set (split_on P s). c \<in> set t)"
proof (induction s)
  case Nil
  then show ?case by simp
next
  case (Cons x xs)
  obtain t ts where sp: "split_on P xs = t # ts"
    using split_on_not_Nil [of P xs] by (cases "split_on P xs") auto
  show ?case
  proof (cases "P x")
    case True
    then show ?thesis using Cons by auto
  next
    case False
    then show ?thesis using Cons sp by auto
  qed
qed

lemma blank_tokens_chars:
  assumes "\<forall>t \<in> set (delimiter_tokens raw). strip t = []" and "c \<in> set raw"
  shows "is_delimiter c \<or> isspace c"
  using split_on_chars [OF assms(2), of is_delimiter] assms(1) blank_spaces
  by (auto simp: delimiter_tokens_def)

lemma digit_chr_plain: "digit_chr c \<Longrightarrow> plain_chr c"
  by (auto simp: digit_chr_def plain_chr_def is_delimiter_def isspace_def Let_def)

lemma blank_field_no_match:
  assumes "\<forall>t \<in> set (delimiter_tokens raw). strip t = []" and "rendered_value now"
  shows "\<not> token_matches raw now"
proof
  assume m: "token_matches raw now"
  have chars: "\<And>c. c \<in> set (strip raw) \<Longrightarrow> \<not> plain_chr c"
    using blank_tokens_chars [OF assms(1)] strip_subset [of raw] by (auto simp: plain_chr_def)
  have ne: "strip raw \<noteq> []" using m by (rule token_matches_nonblank)
  then have "hd (strip raw) \<in> set (strip raw)" by simp
  then have "\<not> digit_chr (hd (strip raw))" using chars digit_chr_plain by blast
  then have "\<not> isdigit (strip raw)" using ne by (cases "strip raw") (auto simp: isdigit_def)
  then have "str_in (strip now) (strip raw)"
    using m by (auto simp: token_matches_def Let_def split: if_splits)
  then have sub: "set (strip now) \<subseteq> set (strip raw)" by (rule str_in_set)
  obtain p where p: "p \<in> set now" "plain_chr p"
    using assms(2) by (auto simp: rendered_value_def list_ex_iff)
  then have "p \<in> set (strip now)" by (auto simp: plain_chr_def intro: strip_keeps)
  then show False using sub chars p(2) by blast
qed

lemma decimal_value_zeros: "decimal_value (replicate k CHR ''0'' @ t) = decimal_value t"
proof -
  have "foldl (\<lambda>acc c. 10 * acc + (int (of_char c) - 48)) 0 (replicate k CHR ''0'') = 0"
    by (induction k) simp_all
  then show ?thesis by (simp add: decimal_value_def)
qed

lemma pure_decimal_zeros: "pure_decimal t \<Longrightarrow> pure_decimal (replicate k CHR ''0'' @ t)"
proof -
  have "decimal_chr CHR ''0''" by (simp add: decimal_chr_def)
  then show "pure_decimal t \<Longrightarrow> pure_decimal (replicate k CHR ''0'' @ t)"
    by (auto simp: pure_decimal_def list_all_iff)
qed

lemma matches_decimal:
  assumes "pure_decimal t"
  shows "matches (Str t) c = token_matches t c"
proof -
  have s: "strip t = t" using assms by (rule decimal_strip)
  have ne: "t \<noteq> []" and dec: "list_all decimal_chr t"
    using assms by (simp_all add: pure_decimal_def)
  have "lower t = t" using dec decimal_chr_plain
    by (auto simp: lower_def list_all_iff intro: map_idI)
  moreover have "t \<noteq> ''todos''" using dec by (auto simp: decimal_chr_def)
  ultimately have nw: "lower (normalize_cell (Str t)) \<noteq> ''todos''" using s by simp
  have "delimiter_tokens t = [t]" unfolding delimiter_tokens_def
    using dec decimal_chr_plain by (intro split_on_none) (auto simp: list_all_iff)
  then show ?thesis using matches_tokens [OF nw, of c] s ne by simp
qed


section \<open>The duplicate guard\<close>

lemma allow_fresh:
  "last_minute_key g \<noteq> Some (minute_key now) \<or> item_key it \<notin> seen g \<Longrightarrow> fst (allow it now g)"
  by (auto simp: allow_def reset_if_new_minute_def Let_def)

lemma allow_records:
  "last_minute_key (snd (allow it now g)) = Some (minute_key now)"
  "item_key it \<in> seen (snd (allow it now g))"
  by (auto simp: allow_def reset_if_new_minute_def Let_def)

lemma allow_keeps:
  assumes "last_minute_key g = Some (minute_key now)" and "k \<in> seen g"
  shows "last_minute_key (snd (allow it now g)) = Some (minute_key now)"
    and "k \<in> seen (snd (allow it now g))"
  using assms by (auto simp: allow_def reset_if_new_minute_def Let_def)

lemma allow_seen:
  "last_minute_key g = Some (minute_key now) \<Longrightarrow> item_key it \<in> seen g
     \<Longrightarrow> \<not> fst (allow it now g)"
  by (auto simp: allow_def reset_if_new_minute_def Let_def)

lemma guard_after_keeps:
  assumes "last_minute_key g = Some m" and "k \<in> seen g"
    and "\<forall>c \<in> set calls. minute_key (snd c) = m"
  shows "last_minute_key (guard_after calls g) = Some m \<and> k \<in> seen (guard_after calls g)"
  using assms
proof (induction calls arbitrary: g)
  case Nil
  then show ?case by simp
next
  case (Cons c calls)
  obtain it now where c: "c = (it, now)" by (cases c)
  have m: "minute_key now = m" using Cons.prems(3) c by simp
  have "last_minute_key (snd (allow it now g)) = Some m" "k \<in> seen (snd (allow it now g))"
    using allow_keeps [of g now k it] Cons.prems(1,2) m by simp_all
  then show ?case using Cons.IH [of "snd (allow it now g)"] Cons.prems(3) c by simp
qed

lemma guard_after_append: "guard_after (xs @ ys) g = guard_after ys (guard_after xs g)"
  by (induction xs arbitrary: g) auto


section \<open>The queue\<close>

lemma run_ops_conserves:
  "popped (fst (run_ops ops dq)) @ snd (run_ops ops dq) = dq @ pushed ops"
proof (induction ops arbitrary: dq)
  case Nil
  show ?case by simp
next
  case (Cons op ops)
  show ?case
  proof (cases op)
    case (Push x)
    then show ?thesis using Cons.IH [of "queue_put x dq"] by (simp add: queue_put_def)
  next
    case Pop
    show ?thesis
    proof (cases dq)
      case Nil
      then show ?thesis using Pop Cons.IH [of "[]"] by (simp add: queue_get_def)
    next
      case (Cons x rest)
      then show ?thesis using Pop Cons.IH [of rest] by (simp add: queue_get_def)
    qed
  qed
qed

section \<open>Claims\<close>

text \<open>
  C5. A row whose seven schedule fields all equal the wildcard \<open>Todos\<close>, whatever the
  case of its letters, is due at every time: \<open>should_enqueue\<close> is true for every
  \<open>NowParts\<close>.
\<close>

theorem should_enqueue_all_wildcards:
  assumes "wildcard_field row ''ano''"
    and "wildcard_field row ''meses_do_ano''"
    and "wildcard_field row ''semanas_do_mes''"
    and "wildcard_field row ''dias_da_semana''"
    and "wildcard_field row ''dia''"
    and "wildcard_field row ''hora''"
    and "wildcard_field row ''minuto''"
  shows "should_enqueue row now"
  unfolding should_enqueue_def using assms by (simp add: wildcard_field_matches)

theorem should_enqueue_all_wildcards_witness:
  "wildcard_field all_todos ''ano'' \<and> wildcard_field all_todos ''meses_do_ano''
   \<and> wildcard_field all_todos ''semanas_do_mes'' \<and> wildcard_field all_todos ''dias_da_semana''
   \<and> wildcard_field all_todos ''dia'' \<and> wildcard_field all_todos ''hora''
   \<and> wildcard_field all_todos ''minuto'' \<and> should_enqueue all_todos friday_0730"
proof -
  have w: "wildcard_field all_todos ''ano''" "wildcard_field all_todos ''meses_do_ano''"
    "wildcard_field all_todos ''semanas_do_mes''" "wildcard_field all_todos ''dias_da_semana''"
    "wildcard_field all_todos ''dia''" "wildcard_field all_todos ''hora''"
    "wildcard_field all_todos ''minuto''"
    by code_simp+
  from should_enqueue_all_wildcards [OF w, of friday_0730] w show ?thesis by simp
qed

text \<open>
  C6, as the code has it. Two purely numeric strings of at most 4300 digits each match
  exactly when their integer values are equal, as a single token and as a whole
  field, so leading zeros do not matter there: \<open>7\<close> matches \<open>07\<close> as \<open>07\<close> does.
  When one of the two has more than 4300 digits the conversion fails and the token
  matches exactly when the snapshot value occurs in it.
\<close>

theorem numeric_tokens_match_by_value:
  assumes "pure_decimal t" and "pure_decimal c"
  shows "(length t \<le> int_max_str_digits \<and> length c \<le> int_max_str_digits \<longrightarrow>
            token_matches t c = (decimal_value t = decimal_value c)
            \<and> matches (Str t) c = (decimal_value t = decimal_value c))
       \<and> (k + length t \<le> int_max_str_digits \<and> length c \<le> int_max_str_digits \<longrightarrow>
            token_matches (replicate k CHR ''0'' @ t) c = token_matches t c)
       \<and> (int_max_str_digits < length t \<or> int_max_str_digits < length c \<longrightarrow>
            token_matches t c = str_in c t \<and> matches (Str t) c = str_in c t)
       \<and> token_matches ''7'' ''07'' \<and> token_matches ''07'' ''07''
       \<and> matches (Str ''7'') ''07'' \<and> matches (Str ''07'') ''07''"
proof -
  have b: "matches (Str t) c = token_matches t c"
    using assms(1) by (rule matches_decimal)
  have a: "length t \<le> int_max_str_digits \<and> length c \<le> int_max_str_digits \<longrightarrow>
            token_matches t c = (decimal_value t = decimal_value c)
            \<and> matches (Str t) c = (decimal_value t = decimal_value c)"
    using token_matches_decimal [OF assms] b by simp
  have z: "k + length t \<le> int_max_str_digits \<and> length c \<le> int_max_str_digits \<longrightarrow>
            token_matches (replicate k CHR ''0'' @ t) c = token_matches t c"
  proof
    assume l: "k + length t \<le> int_max_str_digits \<and> length c \<le> int_max_str_digits"
    then have "token_matches (replicate k CHR ''0'' @ t) c
                 = (decimal_value (replicate k CHR ''0'' @ t) = decimal_value c)"
      using assms by (intro token_matches_decimal pure_decimal_zeros) simp_all
    moreover have "token_matches t c = (decimal_value t = decimal_value c)"
      using l assms by (intro token_matches_decimal) simp_all
    ultimately show "token_matches (replicate k CHR ''0'' @ t) c = token_matches t c"
      by (simp add: decimal_value_zeros)
  qed
  have l: "int_max_str_digits < length t \<or> int_max_str_digits < length c \<longrightarrow>
            token_matches t c = str_in c t \<and> matches (Str t) c = str_in c t"
    using token_matches_long [OF assms] b by simp
  have e: "token_matches ''7'' ''07''" "token_matches ''07'' ''07''"
    "matches (Str ''7'') ''07''" "matches (Str ''07'') ''07''"
    by code_simp+
  show ?thesis using a z l e by simp
qed

theorem numeric_tokens_match_by_value_witness:
  "pure_decimal ''7'' \<and> pure_decimal ''07''
   \<and> length ''7'' \<le> int_max_str_digits \<and> length ''07'' \<le> int_max_str_digits
   \<and> decimal_value ''7'' = decimal_value ''07''
   \<and> token_matches ''7'' ''07'' \<and> matches (Str ''7'') ''07''
   \<and> 2 + length ''7'' \<le> int_max_str_digits
   \<and> token_matches (replicate 2 CHR ''0'' @ ''7'') ''07''
   \<and> pure_decimal (replicate 4300 CHR ''0'' @ ''107'')
   \<and> int_max_str_digits < length (replicate 4300 CHR ''0'' @ ''107'')
   \<and> token_matches (replicate 4300 CHR ''0'' @ ''107'') ''07''
        = str_in ''07'' (replicate 4300 CHR ''0'' @ ''107'')"
proof -
  have d: "pure_decimal ''7''" "pure_decimal ''07''"
    by (simp_all add: pure_decimal_def decimal_chr_def)
  have n: "length ''7'' \<le> int_max_str_digits" "length ''07'' \<le> int_max_str_digits"
    "2 + length ''7'' \<le> int_max_str_digits"
    by (simp_all add: int_max_str_digits_def)
  have v: "decimal_value ''7'' = decimal_value ''07''" by (simp add: decimal_value_def)
  have "pure_decimal ''107''" by (simp add: pure_decimal_def decimal_chr_def)
  then have dl: "pure_decimal (replicate 4300 CHR ''0'' @ ''107'')"
    by (rule pure_decimal_zeros)
  have nl: "int_max_str_digits < length (replicate 4300 CHR ''0'' @ ''107'')"
    by (simp add: int_max_str_digits_def)
  from numeric_tokens_match_by_value [OF d, of 2]
       numeric_tokens_match_by_value [OF dl d(2), of 0] d n v dl nl
  show ?thesis by simp
qed

text \<open>
  C6, as the claim has it, fails on a token of more than 4300 digits: the token of
  4300 zeros followed by \<open>107\<close> has the value 107, the snapshot value \<open>07\<close> has the
  value 7, and the token matches, since \<open>07\<close> occurs in it. In the other direction
  the token \<open>7\<close> does not match the value of 4300 zeros followed by \<open>7\<close>.
\<close>

theorem long_numeric_token_counterexample:
  "pure_decimal (replicate 4300 CHR ''0'' @ ''107'') \<and> pure_decimal ''07''
   \<and> decimal_value (replicate 4300 CHR ''0'' @ ''107'') = 107
   \<and> decimal_value ''07'' = 7
   \<and> token_matches (replicate 4300 CHR ''0'' @ ''107'') ''07''
   \<and> pure_decimal ''7'' \<and> pure_decimal (replicate 4300 CHR ''0'' @ ''7'')
   \<and> decimal_value ''7'' = decimal_value (replicate 4300 CHR ''0'' @ ''7'')
   \<and> \<not> token_matches ''7'' (replicate 4300 CHR ''0'' @ ''7'')"
proof -
  have d: "pure_decimal ''107''" "pure_decimal ''07''" "pure_decimal ''7''"
    by (simp_all add: pure_decimal_def decimal_chr_def)
  have dl: "pure_decimal (replicate 4300 CHR ''0'' @ ''107'')"
           "pure_decimal (replicate 4300 CHR ''0'' @ ''7'')"
    using d by (simp_all add: pure_decimal_zeros)
  have v0: "decimal_value ''107'' = 107" "decimal_value ''07'' = 7"
    by (simp_all add: decimal_value_def)
  have v: "decimal_value (replicate 4300 CHR ''0'' @ ''107'') = 107"
          "decimal_value ''7'' = decimal_value (replicate 4300 CHR ''0'' @ ''7'')"
    using v0 by (simp_all add: decimal_value_zeros)
  have "str_in ''07'' ''107''" by simp
  then have "str_in ''07'' (replicate 4300 CHR ''0'' @ ''107'')" by (rule str_in_append)
  moreover have "int_max_str_digits < length (replicate 4300 CHR ''0'' @ ''107'')"
    by (simp add: int_max_str_digits_def)
  ultimately have m: "token_matches (replicate 4300 CHR ''0'' @ ''107'') ''07''"
    using token_matches_long [OF dl(1) d(2)] by simp
  have "\<not> str_in (replicate 4300 CHR ''0'' @ ''7'') ''7''"
    using str_in_length [of "replicate 4300 CHR ''0'' @ ''7''" "''7''"] by auto
  moreover have "int_max_str_digits < length (replicate 4300 CHR ''0'' @ ''7'')"
    by (simp add: int_max_str_digits_def)
  ultimately have nm: "\<not> token_matches ''7'' (replicate 4300 CHR ''0'' @ ''7'')"
    using token_matches_long [OF d(3) dl(2)] by simp
  show ?thesis using d(2,3) dl v v0(2) m nm by simp
qed

text \<open>
  C7. A field that is not the wildcard matches a snapshot value exactly when one of
  its tokens between commas, semicolons and pipes matches it. The snapshot value is
  one the clock renders: digits or a name, so it holds a character that is neither
  a delimiter nor blank. \<open>07,08\<close> matches \<open>07\<close> and \<open>08\<close> and does not match \<open>09\<close>; the
  same with semicolons, pipes and a mixture.
\<close>

theorem field_matches_some_token:
  assumes "lower (normalize_cell f) \<noteq> ''todos''" and "rendered_value now"
  shows "matches f now
           = (\<exists>t \<in> set (delimiter_tokens (normalize_cell f)). token_matches t now)
       \<and> matches (Str ''07,08'') ''07'' \<and> matches (Str ''07,08'') ''08''
       \<and> \<not> matches (Str ''07,08'') ''09''
       \<and> matches (Str ''07;08'') ''07'' \<and> matches (Str ''07;08'') ''08''
       \<and> \<not> matches (Str ''07;08'') ''09''
       \<and> matches (Str ''07|08'') ''07'' \<and> matches (Str ''07|08'') ''08''
       \<and> \<not> matches (Str ''07|08'') ''09''
       \<and> matches (Str ''06|07, 08;10'') ''08'' \<and> \<not> matches (Str ''06|07, 08;10'') ''09''"
proof -
  have main: "matches f now
           = (\<exists>t \<in> set (delimiter_tokens (normalize_cell f)). token_matches t now)"
    using matches_tokens [OF assms(1), of now]
          blank_field_no_match [of "normalize_cell f" now] assms(2) by blast
  have a: "matches (Str ''07,08'') ''07''" "matches (Str ''07,08'') ''08''"
    "\<not> matches (Str ''07,08'') ''09''" by code_simp+
  have b: "matches (Str ''07;08'') ''07''" "matches (Str ''07;08'') ''08''"
    "\<not> matches (Str ''07;08'') ''09''" by code_simp+
  have c: "matches (Str ''07|08'') ''07''" "matches (Str ''07|08'') ''08''"
    "\<not> matches (Str ''07|08'') ''09''" by code_simp+
  have d: "matches (Str ''06|07, 08;10'') ''08''" "\<not> matches (Str ''06|07, 08;10'') ''09''"
    by code_simp+
  show ?thesis using main a b c d by simp
qed

theorem field_matches_some_token_witness:
  "lower (normalize_cell (Str ''07,08'')) \<noteq> ''todos''
   \<and> rendered_value ''08'' \<and> rendered_value ''09''
   \<and> delimiter_tokens (normalize_cell (Str ''07,08'')) = [''07'', ''08'']
   \<and> matches (Str ''07,08'') ''08'' = (token_matches ''07'' ''08'' \<or> token_matches ''08'' ''08'')
   \<and> matches (Str ''07,08'') ''09'' = (token_matches ''07'' ''09'' \<or> token_matches ''08'' ''09'')
   \<and> token_matches ''08'' ''08''
   \<and> \<not> token_matches ''07'' ''09'' \<and> \<not> token_matches ''08'' ''09''"
proof -
  have n: "normalize_cell (Str ''07,08'') = ''07,08''" by code_simp
  have h: "lower (normalize_cell (Str ''07,08'')) \<noteq> ''todos''" by code_simp
  have r: "rendered_value ''08''" "rendered_value ''09''" by code_simp+
  have t: "delimiter_tokens ''07,08'' = [''07'', ''08'']" by code_simp
  have m: "token_matches ''08'' ''08''" "\<not> token_matches ''07'' ''09''"
    "\<not> token_matches ''08'' ''09''" by code_simp+
  from field_matches_some_token [OF h r(1)] field_matches_some_token [OF h r(2)] h r n t m
  show ?thesis by simp
qed

text \<open>
  C10. The wildcard is recognised on the whole normalised field only. In a field that
  is not the wildcard as a whole, a candidate \<open>Todos\<close> is a token like any other: the
  field matches exactly when one of its candidates matches, and the candidate \<open>Todos\<close>
  matches exactly the values that, trimmed, are not empty and occur in it. So
  \<open>Todos,07\<close> does not match \<open>2025\<close>.
\<close>

theorem wildcard_inside_list_is_ordinary:
  assumes "lower (normalize_cell f) \<noteq> ''todos''"
    and "w \<in> set (split_values (normalize_cell f))"
    and "lower w = ''todos''"
  shows "matches f now = (\<exists>t \<in> set (split_values (normalize_cell f)). token_matches t now)
       \<and> token_matches w now = (strip now \<noteq> [] \<and> str_in (strip now) w)
       \<and> \<not> matches (Str ''Todos,07'') ''2025''"
proof -
  have ne: "split_values (normalize_cell f) \<noteq> []" using assms(2) by auto
  then have "normalize_cell f \<noteq> []" by (auto simp: split_values_def)
  then have a: "matches f now
      = (\<exists>t \<in> set (split_values (normalize_cell f)). token_matches t now)"
    using assms(1) ne by (simp add: matches_def list_ex_iff)
  have b: "\<not> matches (Str ''Todos,07'') ''2025''" by code_simp
  show ?thesis using a b token_matches_wildcard [OF assms(3), of now] by simp
qed

theorem wildcard_inside_list_is_ordinary_witness:
  "lower (normalize_cell (Str ''Todos,07'')) \<noteq> ''todos''
   \<and> ''Todos'' \<in> set (split_values (normalize_cell (Str ''Todos,07'')))
   \<and> lower ''Todos'' = ''todos''
   \<and> \<not> token_matches ''Todos'' ''2025''
   \<and> token_matches ''Todos'' ''odo''"
proof -
  have h1: "lower (normalize_cell (Str ''Todos,07'')) \<noteq> ''todos''" by code_simp
  have h2: "''Todos'' \<in> set (split_values (normalize_cell (Str ''Todos,07'')))" by code_simp
  have h3: "lower ''Todos'' = ''todos''" by code_simp
  have s1: "strip ''2025'' = ''2025''" "strip ''odo'' = ''odo''" by code_simp+
  from wildcard_inside_list_is_ordinary [OF h1 h2 h3, of "''2025''"]
       wildcard_inside_list_is_ordinary [OF h1 h2 h3, of "''odo''"] h1 h2 h3 s1
  show ?thesis by simp
qed

text \<open>
  C3, as the code has it. When the job key has not been seen in the minute of the
  snapshot (the stored minute key differs, or the key is not in the set), two
  successive calls with the same job key and the same minute key answer true, then
  false. Whatever the guard, a call that follows a call with the same job key, with
  only calls of the same minute key in between, is refused, so the two are never both
  accepted. After a call in one minute, a call with the same job key and another
  minute key is accepted.
\<close>

theorem duplicate_guard_once_per_minute:
  assumes "item_key it' = item_key it"
    and "minute_key now' = minute_key now"
    and "\<forall>c \<in> set mid. minute_key (snd c) = minute_key now"
    and "minute_key later \<noteq> minute_key now"
  shows "((last_minute_key g \<noteq> Some (minute_key now) \<or> item_key it \<notin> seen g) \<longrightarrow>
            (fst (allow it now g), fst (allow it' now' (snd (allow it now g)))) = (True, False))
       \<and> \<not> (fst (allow it now (guard_after pre g))
            \<and> fst (allow it' now' (guard_after (pre @ (it, now) # mid) g)))
       \<and> fst (allow it' later (snd (allow it now g)))"
proof -
  have second: "\<not> fst (allow it' now' (snd (allow it now h)))" for h
    using allow_seen [of "snd (allow it now h)" now' it'] allow_records [of it now h] assms(1,2)
    by simp
  have a: "(last_minute_key g \<noteq> Some (minute_key now) \<or> item_key it \<notin> seen g) \<longrightarrow>
            (fst (allow it now g), fst (allow it' now' (snd (allow it now g)))) = (True, False)"
    using allow_fresh [of g now it] second [of g] by auto
  let ?g1 = "snd (allow it now (guard_after pre g))"
  have "last_minute_key (guard_after mid ?g1) = Some (minute_key now)
        \<and> item_key it \<in> seen (guard_after mid ?g1)"
    using allow_records [of it now "guard_after pre g"] assms(3)
    by (intro guard_after_keeps) simp_all
  then have "\<not> fst (allow it' now' (guard_after mid ?g1))"
    using allow_seen [of "guard_after mid ?g1" now' it'] assms(1,2) by simp
  then have b: "\<not> fst (allow it' now' (guard_after (pre @ (it, now) # mid) g))"
    by (simp add: guard_after_append)
  have c: "fst (allow it' later (snd (allow it now g)))"
    using allow_fresh [of "snd (allow it now g)" later it'] allow_records(1) [of it now g]
          assms(4) by simp
  show ?thesis using a b c by simp
qed

theorem duplicate_guard_once_per_minute_witness:
  "item_key (job ''A'' ''Python'' ''run.exe'') = item_key (job ''A'' ''Python'' ''run.exe'')
   \<and> minute_key friday_0730 = minute_key friday_0730
   \<and> minute_key (snd (job ''B'' ''Python'' ''run.exe'', friday_0730)) = minute_key friday_0730
   \<and> minute_key friday_0731 \<noteq> minute_key friday_0730
   \<and> last_minute_key new_guard \<noteq> Some (minute_key friday_0730)
   \<and> fst (allow (job ''A'' ''Python'' ''run.exe'') friday_0730 new_guard)
   \<and> \<not> fst (allow (job ''A'' ''Python'' ''run.exe'') friday_0730
              (snd (allow (job ''A'' ''Python'' ''run.exe'') friday_0730 new_guard)))
   \<and> \<not> fst (allow (job ''A'' ''Python'' ''run.exe'') friday_0730
              (guard_after [(job ''A'' ''Python'' ''run.exe'', friday_0730),
                            (job ''B'' ''Python'' ''run.exe'', friday_0730)] new_guard))
   \<and> fst (allow (job ''A'' ''Python'' ''run.exe'') friday_0731
            (snd (allow (job ''A'' ''Python'' ''run.exe'') friday_0730 new_guard)))"
proof -
  let ?A = "job ''A'' ''Python'' ''run.exe''"
  let ?mid = "[(job ''B'' ''Python'' ''run.exe'', friday_0730)]"
  have h3: "\<forall>c \<in> set ?mid. minute_key (snd c) = minute_key friday_0730" by simp
  have h4: "minute_key friday_0731 \<noteq> minute_key friday_0730"
    by (simp add: minute_key_def friday_0731_def friday_0730_def)
  have h5: "last_minute_key new_guard \<noteq> Some (minute_key friday_0730)"
    by (simp add: new_guard_def)
  have first: "fst (allow ?A friday_0730 new_guard)"
    using h5 by (simp add: allow_fresh)
  from duplicate_guard_once_per_minute
         [OF refl refl h3 h4, where it = ?A and g = new_guard and pre = "[]"] h4 h5 first
  show ?thesis by simp
qed

text \<open>
  C3, as the claim has it, fails for a guard that has already seen the job in the
  minute of the snapshot: both of two successive calls are refused.
\<close>

theorem duplicate_guard_seen_counterexample:
  "(fst (allow (job ''A'' ''Python'' ''run.exe'') friday_0730
           \<lparr> last_minute_key = Some ''2025December260730'', seen = {''A|Python|run.exe''} \<rparr>),
    fst (allow (job ''A'' ''Python'' ''run.exe'') friday_0730
           (snd (allow (job ''A'' ''Python'' ''run.exe'') friday_0730
                  \<lparr> last_minute_key = Some ''2025December260730'',
                    seen = {''A|Python|run.exe''} \<rparr>))))
   = (False, False)"
  by (simp add: allow_def reset_if_new_minute_def minute_key_def item_key_def job_def
                friday_0730_def get_or_empty_def)

text \<open>
  C4. Over every sequence of \<open>put\<close> and \<open>get\<close> calls, the items returned by the \<open>get\<close>
  calls, followed by the items left in the queue, are the initial items followed by
  the items put, in that order: nothing is lost, repeated or reordered. A \<open>get\<close>
  raises \<open>Empty\<close> exactly on the empty queue, and returns the first item otherwise.
\<close>

theorem queue_is_fifo:
  "popped (fst (run_ops ops dq)) @ snapshot (snd (run_ops ops dq)) = dq @ pushed ops
   \<and> popped (fst (run_ops ops [])) @ snapshot (snd (run_ops ops [])) = pushed ops
   \<and> (queue_get dq = Inl Empty) = (dq = [])
   \<and> queue_get [] = Inl Empty
   \<and> queue_get (x # dq) = Inr (x, dq)
   \<and> queue_empty dq = (dq = [])"
  using run_ops_conserves [of ops dq] run_ops_conserves [of ops "[]"]
  by (simp add: snapshot_def queue_get_def queue_empty_def split: list.split)

theorem queue_is_fifo_witness:
  "fst (run_ops [Push (job ''A'' ''t'' ''a''), Pop, Pop, Push (job ''B'' ''t'' ''b''),
                 Push (job ''C'' ''t'' ''c''), Pop] [])
     = [Inr (job ''A'' ''t'' ''a''), Inl Empty, Inr (job ''B'' ''t'' ''b'')]
   \<and> snd (run_ops [Push (job ''A'' ''t'' ''a''), Pop, Pop, Push (job ''B'' ''t'' ''b''),
                   Push (job ''C'' ''t'' ''c''), Pop] [])
       = [job ''C'' ''t'' ''c'']"
proof -
  let ?ops = "[Push (job ''A'' ''t'' ''a''), Pop, Pop, Push (job ''B'' ''t'' ''b''),
               Push (job ''C'' ''t'' ''c''), Pop]"
  have r: "fst (run_ops ?ops [])
             = [Inr (job ''A'' ''t'' ''a''), Inl Empty, Inr (job ''B'' ''t'' ''b'')]"
    by (simp add: queue_put_def queue_get_def)
  from queue_is_fifo [of ?ops "[]"] r show ?thesis by (simp add: snapshot_def)
qed

text \<open>
  C8. A tick of the controller at an hour outside the window from 7 to 18 (18
  excluded) only emits the waiting status: the scheduler, with its queue, its guard
  and its store, the running item and the process are as before, and nothing is
  raised. The blocking loop of the scheduler ends at such an hour without a tick.
\<close>

theorem tick_outside_window_does_nothing:
  assumes "hr < 7 \<or> 18 \<le> hr"
  shows "fst (on_scheduler_tick h hr now c) = None
       \<and> out_queue (scheduler (snd (on_scheduler_tick h hr now c))) = out_queue (scheduler c)
       \<and> guard (scheduler (snd (on_scheduler_tick h hr now c))) = guard (scheduler c)
       \<and> scheduler (snd (on_scheduler_tick h hr now c)) = scheduler c
       \<and> running_item (snd (on_scheduler_tick h hr now c)) = running_item c
       \<and> process (snd (on_scheduler_tick h hr now c)) = process c
       \<and> loop ((hr, now) # readings) s = Some (None, s)"
  using assms by (auto simp: on_scheduler_tick_def in_window_def emit_def)

theorem tick_outside_window_does_nothing_witness:
  "((6::nat) < 7 \<or> (18::nat) \<le> 6) \<and> ((18::nat) < 7 \<or> (18::nat) \<le> 18)
   \<and> out_queue (scheduler (snd (on_scheduler_tick windows_host 6 friday_0730
                                  (fresh_controller (store [])))))
       = out_queue (scheduler (fresh_controller (store [])))
   \<and> guard (scheduler (snd (on_scheduler_tick windows_host 18 friday_0730
                              (fresh_controller (store [])))))
       = guard (scheduler (fresh_controller (store [])))"
proof -
  have h6: "(6::nat) < 7 \<or> (18::nat) \<le> 6" by simp
  have h18: "(18::nat) < 7 \<or> (18::nat) \<le> 18" by simp
  from tick_outside_window_does_nothing
         [OF h6, of windows_host friday_0730 "fresh_controller (store [])"]
       tick_outside_window_does_nothing
         [OF h18, of windows_host friday_0730 "fresh_controller (store [])"]
  show ?thesis by simp
qed

section \<open>The command builder\<close>

lemma split_command_windows_Nil: "split_command_windows h [] = []"
  by (simp add: split_command_windows_def strip_Nil)

lemma lower_uipath_nonempty: "lower tool = ''uipath'' \<Longrightarrow> tool \<noteq> []"
  by (auto simp: lower_def)

lemma build_invalid_item:
  "strip (get_or_empty (ferramenta it)) = [] \<or> strip (get_or_empty (caminho it)) = []
     \<Longrightarrow> build_subprocess_command h it = Inl Invalid_item"
  by (auto simp: build_subprocess_command_def)

text \<open>
  C1, as the code has it. For an item whose tool, trimmed, equals \<open>uipath\<close> up to
  case: when its path is not blank, the builder returns the four tokens, which are
  the trimmed path as it is (whatever blanks it contains and whatever the host),
  \<open>execute\<close>, \<open>--process-name\<close> and the trimmed name of the process; when its path is
  blank or missing, the builder raises the error of an invalid item. On every host
  the item with tool \<open>UiPath\<close>, path \<open>robot.exe\<close> and name \<open>Proc\<close> gives
  \<open>robot.exe execute --process-name Proc\<close>.
\<close>

theorem reserved_tool_command:
  assumes "lower (strip (get_or_empty (ferramenta it))) = ''uipath''"
  shows "(strip (get_or_empty (caminho it)) \<noteq> [] \<longrightarrow>
            build_subprocess_command h it
              = Inr [strip (get_or_empty (caminho it)), ''execute'', ''--process-name'',
                     strip (get_or_empty (processo it))])
       \<and> (strip (get_or_empty (caminho it)) = [] \<longrightarrow>
            build_subprocess_command h it = Inl Invalid_item)
       \<and> build_subprocess_command h (job ''Proc'' ''UiPath'' ''robot.exe'')
            = Inr [''robot.exe'', ''execute'', ''--process-name'', ''Proc'']"
proof -
  have a: "strip (get_or_empty (caminho it)) \<noteq> [] \<longrightarrow>
            build_subprocess_command h it
              = Inr [strip (get_or_empty (caminho it)), ''execute'', ''--process-name'',
                     strip (get_or_empty (processo it))]"
    using assms lower_uipath_nonempty [OF assms]
    by (simp add: build_subprocess_command_def build_uipath_command_def)
  have b: "strip (get_or_empty (caminho it)) = [] \<longrightarrow>
            build_subprocess_command h it = Inl Invalid_item"
    by (simp add: build_invalid_item)
  let ?it = "job ''Proc'' ''UiPath'' ''robot.exe''"
  have t: "strip (get_or_empty (ferramenta ?it)) = ''UiPath''" by code_simp
  have l: "lower ''UiPath'' = ''uipath''" by code_simp
  have p: "strip (get_or_empty (caminho ?it)) = ''robot.exe''" by code_simp
  have n: "strip (get_or_empty (processo ?it)) = ''Proc''" by code_simp
  have c: "build_subprocess_command h ?it
             = Inr [''robot.exe'', ''execute'', ''--process-name'', ''Proc'']"
    using t l p n by (simp add: build_subprocess_command_def build_uipath_command_def)
  show ?thesis using a b c by simp
qed

theorem reserved_tool_command_witness:
  "lower (strip (get_or_empty (ferramenta (job ''Proc'' '' uipath '' ''C:/My Robot/robot.exe''))))
     = ''uipath''
   \<and> strip (get_or_empty (caminho (job ''Proc'' '' uipath '' ''C:/My Robot/robot.exe''))) \<noteq> []
   \<and> build_subprocess_command windows_host (job ''Proc'' '' uipath '' ''C:/My Robot/robot.exe'')
       = Inr [''C:/My Robot/robot.exe'', ''execute'', ''--process-name'', ''Proc'']
   \<and> lower (strip (get_or_empty (ferramenta (job ''Proc'' ''UiPath'' ''  '')))) = ''uipath''
   \<and> strip (get_or_empty (caminho (job ''Proc'' ''UiPath'' ''  ''))) = []
   \<and> build_subprocess_command windows_host (job ''Proc'' ''UiPath'' ''  '') = Inl Invalid_item
   \<and> lower (strip (get_or_empty (ferramenta
        \<lparr> processo = Some ''Proc'', ferramenta = Some ''UiPath'', caminho = None \<rparr>)))
       = ''uipath''
   \<and> strip (get_or_empty (caminho
        \<lparr> processo = Some ''Proc'', ferramenta = Some ''UiPath'', caminho = None \<rparr>)) = []
   \<and> build_subprocess_command windows_host
        \<lparr> processo = Some ''Proc'', ferramenta = Some ''UiPath'', caminho = None \<rparr>
       = Inl Invalid_item"
proof -
  let ?a = "job ''Proc'' '' uipath '' ''C:/My Robot/robot.exe''"
  let ?b = "job ''Proc'' ''UiPath'' ''  ''"
  let ?c = "\<lparr> processo = Some ''Proc'', ferramenta = Some ''UiPath'', caminho = None \<rparr>"
  have ha: "lower (strip (get_or_empty (ferramenta ?a))) = ''uipath''" by code_simp
  have hb: "lower (strip (get_or_empty (ferramenta ?b))) = ''uipath''" by code_simp
  have hc: "lower (strip (get_or_empty (ferramenta ?c))) = ''uipath''" by code_simp
  have pa: "strip (get_or_empty (caminho ?a)) = ''C:/My Robot/robot.exe''" by code_simp
  have na: "strip (get_or_empty (processo ?a)) = ''Proc''" by code_simp
  have pb: "strip (get_or_empty (caminho ?b)) = []" by code_simp
  have pc: "strip (get_or_empty (caminho ?c)) = []" by code_simp
  from reserved_tool_command [OF ha, of windows_host]
       reserved_tool_command [OF hb, of windows_host]
       reserved_tool_command [OF hc, of windows_host] ha hb hc pa na pb pc
  show ?thesis by simp
qed

text \<open>
  C1, as the claim has it, fails at its own instance: the tool \<open>RoboT\<close> is not the
  reserved one, so the item with tool \<open>RoboT\<close>, path \<open>robot.exe\<close> and name \<open>Proc\<close>
  gives the single token \<open>robot.exe\<close>. It also fails for an item with the reserved
  tool and no path, where the builder raises.
\<close>

theorem reserved_tool_literal_counterexample:
  "build_subprocess_command windows_host (job ''Proc'' ''RoboT'' ''robot.exe'')
     = Inr [''robot.exe'']
   \<and> lower (get_or_empty (ferramenta (job ''Proc'' ''UiPath'' ''''))) = ''uipath''
   \<and> build_subprocess_command windows_host (job ''Proc'' ''UiPath'' '''') = Inl Invalid_item"
  by code_simp

text \<open>
  C9, as the code has it. For an item with a tool that is not blank and is not
  \<open>uipath\<close>, whose path resolves to an entry that exists, is a regular file and has
  an extension other than \<open>.exe\<close>, \<open>.com\<close>, \<open>.py\<close>, \<open>.pyw\<close>, \<open>.bat\<close>, \<open>.cmd\<close>,
  \<open>.ps1\<close> and \<open>.lnk\<close>, the builder raises the error of an unexecutable target,
  whose message contains the entry and the extension. For every item whose tool is
  blank or missing the builder raises the error of an invalid item. On the host
  where the text file of the example exists, the item with tool \<open>other\<close> and that
  path is refused as an unexecutable target with the extension \<open>.txt\<close>.
\<close>

theorem unexecutable_target_is_refused:
  assumes "strip (get_or_empty (ferramenta it)) \<noteq> []"
    and "lower (strip (get_or_empty (ferramenta it))) \<noteq> ''uipath''"
    and "split_command_windows h (strip (get_or_empty (caminho it))) = entry # args"
    and "path_exists h entry" and "path_isfile h entry"
    and "lower (snd (splitext (path_seps h) entry)) = ext"
    and "ext \<notin> {''.exe'', ''.com'', ''.py'', ''.pyw'', ''.bat'', ''.cmd'', ''.ps1'', ''.lnk''}"
  shows "build_subprocess_command h it = Inl (Unexecutable_target entry ext)
       \<and> (\<exists>a b c. error_text (Unexecutable_target entry ext) = a @ entry @ b @ ext @ c)
       \<and> (strip (get_or_empty (ferramenta other)) = [] \<longrightarrow>
            build_subprocess_command h' other = Inl Invalid_item)
       \<and> build_subprocess_command windows_host (job ''X'' ''other'' readme_path)
            = Inl (Unexecutable_target readme_path ''.txt'')"
proof -
  have "strip (get_or_empty (caminho it)) \<noteq> []"
    using assms(3) split_command_windows_Nil [of h] by auto
  then have a: "build_subprocess_command h it = Inl (Unexecutable_target entry ext)"
    using assms by (simp add: build_subprocess_command_def)
  have "error_text (Unexecutable_target entry ext)
      = (''Caminho aponta para arquivo n'' @ [CHR 0xE3] @ ''o-execut'' @ [CHR 0xE1]
         @ ''vel no Windows: '' @ [CHR 0x27]) @ entry
        @ ([CHR 0x27] @ '' (extens'' @ [CHR 0xE3] @ ''o '' @ [CHR 0x27]) @ ext
        @ ([CHR 0x27] @ ''). ''
           @ ''Use .exe/.bat/.cmd/.ps1/.py ou um atalho .lnk para um execut''
           @ [CHR 0xE1] @ ''vel.'')"
    by (simp add: error_text_def)
  then have b: "\<exists>a b c. error_text (Unexecutable_target entry ext) = a @ entry @ b @ ext @ c"
    by blast
  have c: "strip (get_or_empty (ferramenta other)) = [] \<longrightarrow>
            build_subprocess_command h' other = Inl Invalid_item"
    by (simp add: build_invalid_item)
  have d: "build_subprocess_command windows_host (job ''X'' ''other'' readme_path)
            = Inl (Unexecutable_target readme_path ''.txt'')"
    by code_simp
  show ?thesis using a b c d by simp
qed

theorem unexecutable_target_is_refused_witness:
  "strip (get_or_empty (ferramenta (job ''X'' ''other'' readme_path))) \<noteq> []
   \<and> lower (strip (get_or_empty (ferramenta (job ''X'' ''other'' readme_path)))) \<noteq> ''uipath''
   \<and> split_command_windows windows_host
        (strip (get_or_empty (caminho (job ''X'' ''other'' readme_path)))) = [readme_path]
   \<and> path_exists windows_host readme_path \<and> path_isfile windows_host readme_path
   \<and> lower (snd (splitext (path_seps windows_host) readme_path)) = ''.txt''
   \<and> ''.txt'' \<notin> {''.exe'', ''.com'', ''.py'', ''.pyw'', ''.bat'', ''.cmd'', ''.ps1'', ''.lnk''}
   \<and> build_subprocess_command windows_host (job ''X'' ''other'' readme_path)
       = Inl (Unexecutable_target readme_path ''.txt'')
   \<and> strip (get_or_empty (ferramenta (job ''X'' '' '' readme_path))) = []
   \<and> build_subprocess_command windows_host (job ''X'' '' '' readme_path) = Inl Invalid_item
   \<and> strip (get_or_empty (ferramenta
        \<lparr> processo = Some ''X'', ferramenta = None, caminho = Some readme_path \<rparr>)) = []
   \<and> build_subprocess_command windows_host
        \<lparr> processo = Some ''X'', ferramenta = None, caminho = Some readme_path \<rparr>
       = Inl Invalid_item"
proof -
  let ?it = "job ''X'' ''other'' readme_path"
  let ?blank = "job ''X'' '' '' readme_path"
  let ?missing = "\<lparr> processo = Some ''X'', ferramenta = None, caminho = Some readme_path \<rparr>"
  have h1: "strip (get_or_empty (ferramenta ?it)) \<noteq> []" by code_simp
  have h2: "lower (strip (get_or_empty (ferramenta ?it))) \<noteq> ''uipath''" by code_simp
  have h3: "split_command_windows windows_host (strip (get_or_empty (caminho ?it)))
              = [readme_path]" by code_simp
  have h4: "path_exists windows_host readme_path" by code_simp
  have h5: "path_isfile windows_host readme_path" by code_simp
  have h6: "lower (snd (splitext (path_seps windows_host) readme_path)) = ''.txt''"
    by code_simp
  have h7: "''.txt'' \<notin> {''.exe'', ''.com'', ''.py'', ''.pyw'', ''.bat'', ''.cmd'',
                         ''.ps1'', ''.lnk''}" by simp
  have b1: "strip (get_or_empty (ferramenta ?blank)) = []" by code_simp
  have b2: "strip (get_or_empty (ferramenta ?missing)) = []" by code_simp
  from unexecutable_target_is_refused
         [OF h1 h2 h3 h4 h5 h6 h7, where other = ?blank and h' = windows_host]
       unexecutable_target_is_refused
         [OF h1 h2 h3 h4 h5 h6 h7, where other = ?missing and h' = windows_host]
       h1 h2 h3 h4 h5 h6 h7 b1 b2
  show ?thesis by simp
qed

text \<open>
  C9, as the claim has it, fails for an item without a tool: the tool is not the
  reserved one and the path is an existing text file, and the builder raises the
  error of an invalid item, which names neither the path nor the extension.
\<close>

theorem blank_tool_counterexample:
  "lower (strip (get_or_empty (ferramenta (job ''X'' '''' readme_path)))) \<noteq> ''uipath''
   \<and> split_command_windows windows_host
        (strip (get_or_empty (caminho (job ''X'' '''' readme_path)))) = [readme_path]
   \<and> path_exists windows_host readme_path \<and> path_isfile windows_host readme_path
   \<and> lower (snd (splitext (path_seps windows_host) readme_path)) = ''.txt''
   \<and> build_subprocess_command windows_host (job ''X'' '''' readme_path) = Inl Invalid_item
   \<and> \<not> str_in readme_path (error_text Invalid_item)"
  by code_simp

section \<open>A failing log append during a tick\<close>

text \<open>
  C2 fails on the code. The store holds the processes \<open>A\<close> and \<open>B\<close>, both due at
  every minute; the listing succeeds and the append of the log entry of \<open>A\<close> raises.
  Without the fault the tick puts \<open>A\<close> and \<open>B\<close> in the queue. With it the exception
  leaves the loop of \<open>tick_once\<close>: the queue stays empty, \<open>B\<close> is never given to the
  guard, and \<open>A\<close> is marked as seen without being queued. The controller catches
  the exception after the loop, so its queue is empty as well.
\<close>

theorem log_failure_aborts_tick:
  "fst (poll_due_processes (store []) friday_0730)
     = Inr [job ''A'' ''Python'' ''run.exe'', job ''B'' ''Python'' ''run.exe'']
   \<and> out_queue (snd (tick_once friday_0730 (fresh_scheduler (store []))))
       = [job ''A'' ''Python'' ''run.exe'', job ''B'' ''Python'' ''run.exe'']
   \<and> fst (tick_once friday_0730 (fresh_scheduler (store [None, Some ''disk I/O error''])))
       = Some (Db_error ''disk I/O error'')
   \<and> out_queue (snd (tick_once friday_0730
                        (fresh_scheduler (store [None, Some ''disk I/O error''])))) = []
   \<and> seen (guard (snd (tick_once friday_0730
                         (fresh_scheduler (store [None, Some ''disk I/O error''])))))
       = {''A|Python|run.exe''}
   \<and> fst (on_scheduler_tick windows_host 8 friday_0730
            (busy_controller (store [None, Some ''disk I/O error'']))) = None
   \<and> out_queue (scheduler (snd (on_scheduler_tick windows_host 8 friday_0730
                                  (busy_controller (store [None, Some ''disk I/O error''])))))
       = []"
proof -
  let ?bad = "store [None, Some ''disk I/O error'']"
  have a: "fst (poll_due_processes (store []) friday_0730)
             = Inr [job ''A'' ''Python'' ''run.exe'', job ''B'' ''Python'' ''run.exe'']"
    by code_simp
  have b: "out_queue (snd (tick_once friday_0730 (fresh_scheduler (store []))))
             = [job ''A'' ''Python'' ''run.exe'', job ''B'' ''Python'' ''run.exe'']"
    by code_simp
  have c: "fst (tick_once friday_0730 (fresh_scheduler ?bad))
             = Some (Db_error ''disk I/O error'')"
    by code_simp
  have d: "out_queue (snd (tick_once friday_0730 (fresh_scheduler ?bad))) = []"
    by code_simp
  have e: "seen (guard (snd (tick_once friday_0730 (fresh_scheduler ?bad))))
             = {''A|Python|run.exe''}"
    by code_simp
  have f: "fst (on_scheduler_tick windows_host 8 friday_0730 (busy_controller ?bad)) = None"
    by code_simp
  have g: "out_queue (scheduler (snd (on_scheduler_tick windows_host 8 friday_0730
                                       (busy_controller ?bad)))) = []"
    by code_simp
  show ?thesis using a b c d e f g by simp
qed

end
